theory Spec2Isabelle
  imports Main
begin

section \<open>Strings\<close>

text \<open>
  JavaScript strings are modelled as \<open>string\<close> (a list of 8-bit characters). The
  whitespace that \<open>trim\<close>, \<open>trimStart\<close> and \<open>trimEnd\<close> strip is the ASCII part of
  the ECMAScript white space and line terminator classes; \<open>toLowerCase\<close> maps the
  ASCII capitals and leaves every other character alone.
\<close>

abbreviation NL :: char where
  "NL \<equiv> CHR 0x0A"

definition is_space :: "char \<Rightarrow> bool" where
  "is_space c \<longleftrightarrow>
     c = CHR '' '' \<or> c = CHR 0x09 \<or> c = CHR 0x0A \<or> c = CHR 0x0B \<or> c = CHR 0x0C \<or> c = CHR 0x0D"

definition trimStart :: "string \<Rightarrow> string" where
  "trimStart s = dropWhile is_space s"

definition trimEnd :: "string \<Rightarrow> string" where
  "trimEnd s = rev (dropWhile is_space (rev s))"

definition trim :: "string \<Rightarrow> string" where
  "trim s = trimEnd (trimStart s)"

definition lower_char :: "char \<Rightarrow> char" where
  "lower_char c =
     (case map_of (zip ''ABCDEFGHIJKLMNOPQRSTUVWXYZ'' ''abcdefghijklmnopqrstuvwxyz'') c of
        None \<Rightarrow> c
      | Some l \<Rightarrow> l)"

definition toLowerCase :: "string \<Rightarrow> string" where
  "toLowerCase s = map lower_char s"

text \<open>\<open>s.split(sep)\<close> for a one-character separator: always at least one piece.\<close>

fun split_on :: "char \<Rightarrow> string \<Rightarrow> string list" where
  "split_on sep [] = [[]]"
| "split_on sep (c # cs) =
     (if c = sep then [] # split_on sep cs
      else (case split_on sep cs of
              [] \<Rightarrow> [[c]]
            | p # ps \<Rightarrow> (c # p) # ps))"

text \<open>\<open>xs.join(sep)\<close> on pieces that are already strings.\<close>

fun join :: "string \<Rightarrow> string list \<Rightarrow> string" where
  "join sep [] = []"
| "join sep [x] = x"
| "join sep (x # y # zs) = x @ sep @ join sep (y # zs)"

text \<open>\<open>s.indexOf(c)\<close>: the first position of the character, \<open>-1\<close> when absent.\<close>

fun indexOf :: "string \<Rightarrow> char \<Rightarrow> int" where
  "indexOf [] c = -1"
| "indexOf (x # xs) c =
     (if x = c then 0 else (let i = indexOf xs c in if i < 0 then -1 else i + 1))"

section \<open>Values\<close>

text \<open>
  A JavaScript number is an IEEE double. The model keeps the integer values (as
  \<open>int\<close>) and the three non-finite values; fractional values are outside the model.
\<close>

datatype jsnum = Fin int | NaN | PosInf | NegInf

datatype json =
    JUndefined
  | JNull
  | JBool bool
  | JNum jsnum
  | JStr string
  | JArr "json list"
  | JObj "(string \<times> json) list"

text \<open>An object that the code reads by property name: absent properties are \<open>undefined\<close>.\<close>

type_synonym obj = "string \<rightharpoonup> json"

definition get_prop :: "obj \<Rightarrow> string \<Rightarrow> json" where
  "get_prop ob k = (case ob k of None \<Rightarrow> JUndefined | Some v \<Rightarrow> v)"

text \<open>\<open>"k" in ob\<close>\<close>

definition has_prop :: "obj \<Rightarrow> string \<Rightarrow> bool" where
  "has_prop ob k \<longleftrightarrow> ob k \<noteq> None"

definition nullish :: "json \<Rightarrow> bool" where
  "nullish v \<longleftrightarrow> v = JUndefined \<or> v = JNull"

text \<open>\<open>a ?? b\<close>\<close>

definition coalesce :: "json \<Rightarrow> json \<Rightarrow> json" where
  "coalesce a b = (if nullish a then b else a)"

text \<open>\<open>Boolean(v)\<close>\<close>

fun truthy :: "json \<Rightarrow> bool" where
  "truthy JUndefined = False"
| "truthy JNull = False"
| "truthy (JBool b) = b"
| "truthy (JNum n) = (n \<noteq> NaN \<and> n \<noteq> Fin 0)"
| "truthy (JStr s) = (s \<noteq> [])"
| "truthy (JArr xs) = True"
| "truthy (JObj kvs) = True"

text \<open>\<open>a || b\<close>\<close>

definition js_or :: "json \<Rightarrow> json \<Rightarrow> json" where
  "js_or a b = (if truthy a then a else b)"

definition digit_char :: "nat \<Rightarrow> char" where
  "digit_char d = ''0123456789'' ! d"

fun nat_to_string :: "nat \<Rightarrow> string" where
  "nat_to_string n =
     (if n < 10 then [digit_char n] else nat_to_string (n div 10) @ [digit_char (n mod 10)])"

definition int_to_string :: "int \<Rightarrow> string" where
  "int_to_string i = (if i < 0 then CHR ''-'' # nat_to_string (nat (- i)) else nat_to_string (nat i))"

fun num_to_string :: "jsnum \<Rightarrow> string" where
  "num_to_string (Fin i) = int_to_string i"
| "num_to_string NaN = ''NaN''"
| "num_to_string PosInf = ''Infinity''"
| "num_to_string NegInf = ''-Infinity''"

text \<open>
  \<open>String(v)\<close>. An array is the join of its elements with commas, where \<open>null\<close> and
  \<open>undefined\<close> elements give the empty string.
\<close>

fun to_string :: "json \<Rightarrow> string" where
  "to_string JUndefined = ''undefined''"
| "to_string JNull = ''null''"
| "to_string (JBool b) = (if b then ''true'' else ''false'')"
| "to_string (JNum n) = num_to_string n"
| "to_string (JStr s) = s"
| "to_string (JArr xs) =
     join '','' (map (\<lambda>x. if x = JUndefined \<or> x = JNull then [] else to_string x) xs)"
| "to_string (JObj kvs) = ''[object Object]''"

section \<open>Tag normalization\<close>

definition DEFAULT_TAG :: string where
  "DEFAULT_TAG = ''General''"

text \<open>
  The loop shared by \<open>normalizeTags\<close> (server) and \<open>normalizeTaskTags\<close> (UI): \<open>seen\<close> is
  the set of lower-cased keys met so far, \<open>tags\<close> the list pushed so far.
\<close>

fun collect_tags :: "json list \<Rightarrow> string set \<Rightarrow> string list \<Rightarrow> string list" where
  "collect_tags [] seen tags = tags"
| "collect_tags (v # vs) seen tags =
     (let tag = trim (to_string (coalesce v (JStr [])))
      in if tag = [] then collect_tags vs seen tags
         else (let key = toLowerCase tag
               in if key \<in> seen then collect_tags vs seen tags
                  else collect_tags vs (insert key seen) (tags @ [tag])))"

text \<open>The seed tasks of the server, as the object literals of the source.\<close>

definition seed_obj :: "string \<Rightarrow> string \<Rightarrow> string \<Rightarrow> string \<Rightarrow> bool \<Rightarrow> int \<Rightarrow> obj" where
  "seed_obj i t d g dn n =
     [''id'' \<mapsto> JStr i, ''title'' \<mapsto> JStr t, ''description'' \<mapsto> JStr d,
      ''tags'' \<mapsto> JArr [JStr g], ''done'' \<mapsto> JBool dn, ''order'' \<mapsto> JNum (Fin n)]"

definition seedTasks :: "obj list" where
  "seedTasks =
     [seed_obj ''t1'' ''Book dentist appointment''
        ''Call the clinic and confirm an early-morning slot for next week.'' ''Personal'' False 0,
      seed_obj ''t2'' ''Send invoice to Marco''
        ''Include the revised hourly breakdown and payment due date in the email.'' ''Work'' False 1,
      seed_obj ''t3'' ''Run 8km easy''
        ''Keep it conversational pace and finish with 10 minutes of mobility work.'' ''Health'' True 2,
      seed_obj ''t4'' ''Refactor navbar animation''
        ''Separate transition timing from layout logic to reduce jank on mobile.'' ''Work'' False 3,
      seed_obj ''t5'' ''Plan Sunday ride''
        ''Pick route, weather window, and coffee stop before Saturday night.'' ''Personal'' False 4]"

definition inferDefaultTags :: "string \<Rightarrow> json list" where
  "inferDefaultTags taskId =
     (case find (\<lambda>task. get_prop task ''id'' = JStr taskId) seedTasks of
        None \<Rightarrow> [JStr ''General'']
      | Some task \<Rightarrow>
          (case get_prop task ''tags'' of
             JArr ts \<Rightarrow> (if length ts > 0 then ts else [JStr ''General''])
           | _ \<Rightarrow> [JStr ''General'']))"

definition normalizeTags :: "json \<Rightarrow> string \<Rightarrow> string list" where
  "normalizeTags inputTags fallbackTaskId =
     (let rawTags =
            (case inputTags of
               JArr xs \<Rightarrow> xs
             | _ \<Rightarrow>
                 if nullish inputTags then inferDefaultTags fallbackTaskId
                 else if CHR '','' \<in> set (to_string inputTags)
                 then map JStr (split_on (CHR '','') (to_string inputTags))
                 else [inputTags]);
          tags = collect_tags rawTags {} []
      in if length tags > 0 then tags else [''General''])"

text \<open>
  The UI's \<open>normalizeTaskTags(task)\<close>. The optional chaining \<open>task?.tags\<close> reads
  \<open>undefined\<close> from a missing task, as from an object without the property.
\<close>

definition normalizeTaskTags :: "obj \<Rightarrow> string list" where
  "normalizeTaskTags task =
     (let rawTags =
            (case get_prop task ''tags'' of
               JArr xs \<Rightarrow> xs
             | _ \<Rightarrow> if truthy (get_prop task ''tag'') then [get_prop task ''tag''] else [JStr DEFAULT_TAG]);
          tags = collect_tags rawTags {} []
      in if length tags > 0 then tags else [DEFAULT_TAG])"

section \<open>The platform\<close>

text \<open>
  What the code takes from its runtime: the JSON codec (\<open>JSON.stringify\<close> as the text
  that a template literal interpolates, \<open>JSON.parse\<close> with \<open>None\<close> for a SyntaxError),
  the conversion \<open>Number(v)\<close>, the collation \<open>localeCompare\<close>, the clock (\<open>new Date().toISOString()\<close>, read as one
  value for the duration of a request) and the generator behind \<open>randomUUID()\<close>,
  indexed by the number of ids drawn so far.
\<close>

record platform =
  JSON_stringify :: "json \<Rightarrow> string"
  JSON_parse :: "string \<Rightarrow> json option"
  toNumber :: "json \<Rightarrow> jsnum"
  localeCompare :: "string \<Rightarrow> string \<Rightarrow> int"
  date_now :: string
  randomUUID :: "nat \<Rightarrow> string"

section \<open>Tasks\<close>

record task =
  t_id :: string
  t_title :: string
  t_description :: string
  t_tags :: "string list"
  t_done :: bool
  t_order :: jsnum
  t_createdAt :: json
  t_updatedAt :: json

text \<open>\<open>Number.isFinite(v) ? Number(v) : 0\<close>\<close>

definition finite_or_zero :: "json \<Rightarrow> jsnum" where
  "finite_or_zero v = (case v of JNum (Fin i) \<Rightarrow> Fin i | _ \<Rightarrow> Fin 0)"

definition normalizeTask :: "platform \<Rightarrow> obj \<Rightarrow> task" where
  "normalizeTask P task =
     (let id = to_string (get_prop task ''id'')
      in \<lparr> t_id = id,
           t_title =
             (let t = trim (to_string (coalesce (get_prop task ''title'') (JStr ''Untitled'')))
              in if t = [] then ''Untitled'' else t),
           t_description = to_string (coalesce (get_prop task ''description'') (JStr [])),
           t_tags = normalizeTags (coalesce (get_prop task ''tags'') (get_prop task ''tag'')) id,
           t_done = truthy (get_prop task ''done''),
           t_order = finite_or_zero (get_prop task ''order''),
           t_createdAt = js_or (get_prop task ''createdAt'') (JStr (date_now P)),
           t_updatedAt = js_or (get_prop task ''updatedAt'') (JStr (date_now P)) \<rparr>)"

text \<open>A normalized task read as an object again (for \<open>{...task, k: v}\<close>).\<close>

definition task_obj :: "task \<Rightarrow> obj" where
  "task_obj t =
     [''id'' \<mapsto> JStr (t_id t), ''title'' \<mapsto> JStr (t_title t),
      ''description'' \<mapsto> JStr (t_description t), ''tags'' \<mapsto> JArr (map JStr (t_tags t)),
      ''done'' \<mapsto> JBool (t_done t), ''order'' \<mapsto> JNum (t_order t),
      ''createdAt'' \<mapsto> t_createdAt t, ''updatedAt'' \<mapsto> t_updatedAt t]"

definition task_json :: "task \<Rightarrow> json" where
  "task_json t =
     JObj [(''id'', JStr (t_id t)), (''title'', JStr (t_title t)),
           (''description'', JStr (t_description t)), (''tags'', JArr (map JStr (t_tags t))),
           (''done'', JBool (t_done t)), (''order'', JNum (t_order t)),
           (''createdAt'', t_createdAt t), (''updatedAt'', t_updatedAt t)]"

section \<open>File names\<close>

definition is_slug_char :: "char \<Rightarrow> bool" where
  "is_slug_char c \<longleftrightarrow> c \<in> set ''abcdefghijklmnopqrstuvwxyz0123456789''"

text \<open>\<open>.replace(/[^a-z0-9]+/g, "-")\<close>: every maximal run of other characters becomes one hyphen.\<close>

function replace_runs :: "string \<Rightarrow> string" where
  "replace_runs [] = []"
| "replace_runs (c # cs) =
     (if is_slug_char c then c # replace_runs cs
      else CHR ''-'' # replace_runs (dropWhile (\<lambda>x. \<not> is_slug_char x) cs))"
  by pat_completeness auto
termination
  by (relation "measure length") (auto simp: less_Suc_eq_le length_dropWhile_le)

text \<open>\<open>.replace(/^-+|-+$/g, "")\<close>\<close>

definition strip_hyphens :: "string \<Rightarrow> string" where
  "strip_hyphens s =
     rev (dropWhile (\<lambda>c. c = CHR ''-'') (rev (dropWhile (\<lambda>c. c = CHR ''-'') s)))"

definition slugify :: "string \<Rightarrow> string" where
  "slugify input =
     (let s = take 64 (strip_hyphens (replace_runs (trim (toLowerCase input))))
      in if s = [] then ''task'' else s)"

definition taskFilename :: "task \<Rightarrow> string" where
  "taskFilename t = t_id t @ ''--'' @ slugify (t_title t) @ ''.md''"

section \<open>The frontmatter codec\<close>

definition toFrontmatterValue :: "platform \<Rightarrow> json \<Rightarrow> string" where
  "toFrontmatterValue P v = JSON_stringify P v"

definition taskToMarkdown :: "platform \<Rightarrow> obj \<Rightarrow> string" where
  "taskToMarkdown P rawTask =
     (let task = normalizeTask P rawTask;
          lines =
            [''---'',
             ''id: '' @ toFrontmatterValue P (JStr (t_id task)),
             ''title: '' @ toFrontmatterValue P (JStr (t_title task)),
             ''tags: '' @ toFrontmatterValue P (JArr (map JStr (t_tags task))),
             ''done: '' @ toFrontmatterValue P (JBool (t_done task)),
             ''order: '' @ toFrontmatterValue P (JNum (t_order task)),
             ''createdAt: '' @ toFrontmatterValue P (t_createdAt task),
             ''updatedAt: '' @ toFrontmatterValue P (t_updatedAt task),
             ''---'',
             [],
             trimEnd (t_description task),
             []]
      in join [NL] lines)"

datatype error = Error string

text \<open>
  The lazy group of \<open>/^---\n([\s\S]*?)\n---\n?([\s\S]*)$/\<close>: the shortest text that is
  followed by a newline and three hyphens, with what comes after them.
\<close>

fun find_delim :: "string \<Rightarrow> (string \<times> string) option" where
  "find_delim [] = None"
| "find_delim (c # cs) =
     (if take 4 (c # cs) = NL # ''---'' then Some ([], drop 4 (c # cs))
      else (case find_delim cs of
              None \<Rightarrow> None
            | Some (m, r) \<Rightarrow> Some (c # m, r)))"

text \<open>The match of the whole expression: the two groups, or \<open>None\<close>.\<close>

definition match_frontmatter :: "string \<Rightarrow> (string \<times> string) option" where
  "match_frontmatter content =
     (if take 4 content = ''---'' @ [NL]
      then (case find_delim (drop 4 content) of
              None \<Rightarrow> None
            | Some (m, r) \<Rightarrow> Some (m, if r \<noteq> [] \<and> hd r = NL then tl r else r))
      else None)"

text \<open>The loop over the lines of the metadata block, filling \<open>meta\<close>.\<close>

fun parse_meta_lines :: "platform \<Rightarrow> string list \<Rightarrow> obj \<Rightarrow> obj" where
  "parse_meta_lines P [] meta = meta"
| "parse_meta_lines P (line # ls) meta =
     (if trim line = [] then parse_meta_lines P ls meta
      else (let separatorIndex = indexOf line (CHR '':'')
            in if separatorIndex \<le> 0 then parse_meta_lines P ls meta
               else (let key = trim (take (nat separatorIndex) line);
                         rawValue = trim (drop (nat (separatorIndex + 1)) line)
                     in parse_meta_lines P ls
                          (meta(key \<mapsto> (case JSON_parse P rawValue of
                                             Some v \<Rightarrow> v
                                           | None \<Rightarrow> JStr rawValue))))))"

definition parseMarkdownTask :: "platform \<Rightarrow> string \<Rightarrow> error + task" where
  "parseMarkdownTask P content =
     (case match_frontmatter content of
        None \<Rightarrow> Inl (Error ''Missing frontmatter block.'')
      | Some (metaText, body) \<Rightarrow>
          (let meta = parse_meta_lines P (split_on NL metaText) Map.empty
           in Inr (normalizeTask P (meta(''description'' \<mapsto> JStr (trim body))))))"

section \<open>The task directory and the logbook\<close>

text \<open>
  The state of the server: the task directory as the list of its files (name and
  content, in the order \<open>readdir\<close> lists them), the logbook file as the list of the
  entries appended to it (one line each), and the number of ids drawn from
  \<open>randomUUID\<close> so far. File operations are taken to succeed; \<open>rm\<close> of a missing file
  is the \<open>ENOENT\<close> that \<open>writeTask\<close> catches.
\<close>

record log_entry =
  le_id :: string
  le_type :: string
  le_createdAt :: string
  le_data :: json

record world =
  files :: "(string \<times> string) list"
  logbook :: "log_entry list"
  uuid_count :: nat

record task_record =
  fileName :: string
  r_task :: task

definition writeFile :: "string \<Rightarrow> string \<Rightarrow> (string \<times> string) list \<Rightarrow> (string \<times> string) list" where
  "writeFile name content fs =
     (if name \<in> fst ` set fs
      then map (\<lambda>(n, c). if n = name then (n, content) else (n, c)) fs
      else fs @ [(name, content)])"

definition rm :: "string \<Rightarrow> (string \<times> string) list \<Rightarrow> (string \<times> string) list" where
  "rm name fs = filter (\<lambda>(n, c). n \<noteq> name) fs"

text \<open>\<open>name.endsWith(".md")\<close>\<close>

definition is_markdown :: "string \<Rightarrow> bool" where
  "is_markdown name \<longleftrightarrow> take 3 (rev name) = ''dm.''"

text \<open>
  The difference \<open>a - b\<close> of two numbers as \<open>sort\<close> reads it: only its sign counts,
  and \<open>NaN\<close> is read as 0.
\<close>

fun order_difference :: "jsnum \<Rightarrow> jsnum \<Rightarrow> int" where
  "order_difference (Fin x) (Fin y) = x - y"
| "order_difference NaN b = 0"
| "order_difference a NaN = 0"
| "order_difference PosInf PosInf = 0"
| "order_difference NegInf NegInf = 0"
| "order_difference PosInf b = 1"
| "order_difference a PosInf = -1"
| "order_difference NegInf b = -1"
| "order_difference a NegInf = 1"

text \<open>
  The comparator of \<open>records.sort\<close>; \<open>a !== b\<close> holds of two numbers that differ and
  of \<open>NaN\<close> with itself.
\<close>

definition compare_records :: "platform \<Rightarrow> task_record \<Rightarrow> task_record \<Rightarrow> int" where
  "compare_records P a b =
     (if t_order (r_task a) \<noteq> t_order (r_task b) \<or> t_order (r_task a) = NaN
      then order_difference (t_order (r_task a)) (t_order (r_task b))
      else localeCompare P (to_string (t_createdAt (r_task a))) (to_string (t_createdAt (r_task b))))"

text \<open>\<open>Array.prototype.sort\<close> is stable: an insertion sort that keeps equal elements in order.\<close>

fun insert_record :: "platform \<Rightarrow> task_record \<Rightarrow> task_record list \<Rightarrow> task_record list" where
  "insert_record P r [] = [r]"
| "insert_record P r (x # xs) =
     (if compare_records P x r \<le> 0 then x # insert_record P r xs else r # x # xs)"

definition sort_records :: "platform \<Rightarrow> task_record list \<Rightarrow> task_record list" where
  "sort_records P rs = foldl (\<lambda>acc r. insert_record P r acc) [] rs"

text \<open>\<open>readTaskFile\<close> inside the \<open>try\<close> of \<open>readAllTaskRecords\<close>: a file that fails to parse is skipped.\<close>

fun read_files :: "platform \<Rightarrow> (string \<times> string) list \<Rightarrow> task_record list" where
  "read_files P [] = []"
| "read_files P ((name, content) # fs) =
     (case parseMarkdownTask P content of
        Inl e \<Rightarrow> read_files P fs
      | Inr t \<Rightarrow> \<lparr> fileName = name, r_task = t \<rparr> # read_files P fs)"

definition readAllTaskRecords :: "platform \<Rightarrow> world \<Rightarrow> task_record list" where
  "readAllTaskRecords P w =
     sort_records P (read_files P (filter (\<lambda>(name, content). is_markdown name) (files w)))"

definition writeTask :: "platform \<Rightarrow> obj \<Rightarrow> string option \<Rightarrow> world \<Rightarrow> task_record \<times> world" where
  "writeTask P task previousFileName w =
     (let normalized = normalizeTask P task;
          nextFileName = taskFilename normalized;
          written = writeFile nextFileName (taskToMarkdown P (task_obj normalized)) (files w);
          cleaned =
            (case previousFileName of
               None \<Rightarrow> written
             | Some prev \<Rightarrow>
                 if prev \<noteq> [] \<and> prev \<noteq> nextFileName then rm prev written else written)
      in (\<lparr> fileName = nextFileName, r_task = normalized \<rparr>, w\<lparr> files := cleaned \<rparr>))"

fun write_seeds :: "platform \<Rightarrow> obj list \<Rightarrow> world \<Rightarrow> world" where
  "write_seeds P [] w = w"
| "write_seeds P (seed # seeds) w =
     write_seeds P seeds
       (snd (writeTask P (seed(''createdAt'' \<mapsto> JStr (date_now P), ''updatedAt'' \<mapsto> JStr (date_now P)))
               None w))"

definition ensureSeedTasks :: "platform \<Rightarrow> world \<Rightarrow> world" where
  "ensureSeedTasks P w =
     (if \<exists>name \<in> fst ` set (files w). is_markdown name then w else write_seeds P seedTasks w)"

definition getTaskRecords :: "platform \<Rightarrow> world \<Rightarrow> task_record list \<times> world" where
  "getTaskRecords P w = (let w' = ensureSeedTasks P w in (readAllTaskRecords P w', w'))"

definition findTaskRecordById :: "platform \<Rightarrow> string \<Rightarrow> world \<Rightarrow> task_record option \<times> world" where
  "findTaskRecordById P taskId w =
     (let (records, w') = getTaskRecords P w
      in (find (\<lambda>record. t_id (r_task record) = taskId) records, w'))"

definition appendLogEntry :: "platform \<Rightarrow> string \<Rightarrow> json \<Rightarrow> world \<Rightarrow> log_entry \<times> world" where
  "appendLogEntry P type data w =
     (let entry = \<lparr> le_id = randomUUID P (uuid_count w), le_type = type,
                     le_createdAt = date_now P, le_data = data \<rparr>
      in (entry, w\<lparr> logbook := logbook w @ [entry], uuid_count := Suc (uuid_count w) \<rparr>))"

section \<open>Request handlers\<close>

text \<open>
  A handler takes the parsed request body (a JSON object) and the state, and returns
  the status code with the payload of \<open>sendJson\<close>, and the new state.
\<close>

datatype payload =
    ErrorPayload string
  | TaskPayload task
  | TasksPayload "task list"
  | TagDeletedPayload string nat "task list"

type_synonym response = "nat \<times> payload"


text \<open>The object that \<open>handleUpdateTask\<close> spreads together before normalizing it.\<close>

definition update_fields :: "platform \<Rightarrow> obj \<Rightarrow> task \<Rightarrow> string \<Rightarrow> obj" where
  "update_fields P body stored nextTitle =
     (let o0 = task_obj stored;
          o1 = (if has_prop body ''done'' then o0(''done'' \<mapsto> JBool (truthy (get_prop body ''done''))) else o0);
          o2 = (if has_prop body ''description''
                then o1(''description'' \<mapsto> JStr (to_string (coalesce (get_prop body ''description'') (JStr []))))
                else o1);
          o3 = (if has_prop body ''tags'' then o2(''tags'' \<mapsto> get_prop body ''tags'') else o2);
          o4 = (if \<not> has_prop body ''tags'' \<and> has_prop body ''tag''
                then o3(''tags'' \<mapsto> JArr [get_prop body ''tag'']) else o3);
          o5 = (if has_prop body ''order'' then o4(''order'' \<mapsto> JNum (toNumber P (get_prop body ''order''))) else o4)
      in o5(''title'' \<mapsto> JStr nextTitle, ''updatedAt'' \<mapsto> JStr (date_now P)))"

text \<open>\<open>body.title === undefined ? record.task.title : String(body.title).trim()\<close>\<close>

definition nextTitle_of :: "obj \<Rightarrow> task_record \<Rightarrow> string" where
  "nextTitle_of body record =
     (if get_prop body ''title'' = JUndefined then t_title (r_task record)
      else trim (to_string (get_prop body ''title'')))"

definition handleUpdateTask :: "platform \<Rightarrow> obj \<Rightarrow> string \<Rightarrow> world \<Rightarrow> response \<times> world" where
  "handleUpdateTask P body taskId w =
     (case findTaskRecordById P taskId w of
        (None, w1) \<Rightarrow> ((404, ErrorPayload ''Task not found.''), w1)
      | (Some record, w1) \<Rightarrow>
          (let nextTitle = nextTitle_of body record
           in if nextTitle = [] then ((400, ErrorPayload ''Title is required.''), w1)
              else
                (let updatedTask = normalizeTask P (update_fields P body (r_task record) nextTitle);
                     (saved, w2) = writeTask P (task_obj updatedTask) (Some (fileName record)) w1;
                     w3 =
                       (if has_prop body ''done'' \<and> t_done (r_task saved) \<noteq> t_done (r_task record)
                        then snd (appendLogEntry P
                                    (if t_done (r_task saved) then ''task_completed'' else ''task_reopened'')
                                    (JObj [(''taskId'', JStr (t_id (r_task saved))),
                                           (''title'', JStr (t_title (r_task saved))),
                                           (''task'', task_json (r_task saved))])
                                    w2)
                        else w2)
                 in ((200, TaskPayload (r_task saved)), w3))))"

text \<open>\<open>nextTags\<close> in \<open>handleDeleteTagEverywhere\<close>: the tags that differ from the tag in lower case.\<close>

definition remove_tag :: "string \<Rightarrow> string list \<Rightarrow> string list" where
  "remove_tag tagToDelete ts = filter (\<lambda>tag. toLowerCase tag \<noteq> toLowerCase tagToDelete) ts"

text \<open>\<open>updatedTask\<close> there: the stored task with \<open>nextTags\<close> and a new \<open>updatedAt\<close>, normalized.\<close>

definition tag_removed :: "platform \<Rightarrow> string \<Rightarrow> task \<Rightarrow> task" where
  "tag_removed P tagToDelete t =
     normalizeTask P
       ((task_obj t)
          (''tags'' \<mapsto> JArr (map JStr (remove_tag tagToDelete (t_tags t))),
           ''updatedAt'' \<mapsto> JStr (date_now P)))"












section \<open>A reference platform\<close>

text \<open>
  A concrete platform on which the model can be run: a JSON codec for \<open>null\<close>,
  booleans, integers, strings and arrays (\<open>JSON.stringify\<close> in full for the values of
  the model; the reader takes no objects, fractions or exponents, and of the
  \<open>\u\<close> escapes only those that \<open>JSON.stringify\<close> writes), \<open>Number\<close> on
  decimal integers, the comparison of strings by character codes, a fixed clock and a
  counter for the ids.
\<close>

abbreviation DQ :: char where
  "DQ \<equiv> CHR 0x22"

abbreviation BS :: char where
  "BS \<equiv> CHR 0x5C"

definition string_escapes :: "(char \<times> string) list" where
  "string_escapes =
     [(DQ, [BS, DQ]), (BS, [BS, BS]), (CHR 0x00, BS # ''u0000''),
      (CHR 0x01, BS # ''u0001''), (CHR 0x02, BS # ''u0002''), (CHR 0x03, BS # ''u0003''),
      (CHR 0x04, BS # ''u0004''), (CHR 0x05, BS # ''u0005''), (CHR 0x06, BS # ''u0006''),
      (CHR 0x07, BS # ''u0007''), (CHR 0x08, BS # ''b''), (CHR 0x09, BS # ''t''),
      (CHR 0x0A, BS # ''n''), (CHR 0x0B, BS # ''u000b''), (CHR 0x0C, BS # ''f''),
      (CHR 0x0D, BS # ''r''), (CHR 0x0E, BS # ''u000e''), (CHR 0x0F, BS # ''u000f''),
      (CHR 0x10, BS # ''u0010''), (CHR 0x11, BS # ''u0011''), (CHR 0x12, BS # ''u0012''),
      (CHR 0x13, BS # ''u0013''), (CHR 0x14, BS # ''u0014''), (CHR 0x15, BS # ''u0015''),
      (CHR 0x16, BS # ''u0016''), (CHR 0x17, BS # ''u0017''), (CHR 0x18, BS # ''u0018''),
      (CHR 0x19, BS # ''u0019''), (CHR 0x1A, BS # ''u001a''), (CHR 0x1B, BS # ''u001b''),
      (CHR 0x1C, BS # ''u001c''), (CHR 0x1D, BS # ''u001d''), (CHR 0x1E, BS # ''u001e''),
      (CHR 0x1F, BS # ''u001f'')]"

definition escape_char :: "char \<Rightarrow> string" where
  "escape_char c = (case map_of string_escapes c of None \<Rightarrow> [c] | Some e \<Rightarrow> e)"

definition quote_string :: "string \<Rightarrow> string" where
  "quote_string s = DQ # concat (map escape_char s) @ [DQ]"

fun ref_stringify :: "json \<Rightarrow> string" where
  "ref_stringify JUndefined = ''undefined''"
| "ref_stringify JNull = ''null''"
| "ref_stringify (JBool b) = (if b then ''true'' else ''false'')"
| "ref_stringify (JNum n) = (case n of Fin i \<Rightarrow> int_to_string i | _ \<Rightarrow> ''null'')"
| "ref_stringify (JStr s) = quote_string s"
| "ref_stringify (JArr xs) =
     ''['' @ join '','' (map (\<lambda>x. if x = JUndefined then ''null'' else ref_stringify x) xs) @ '']''"
| "ref_stringify (JObj kvs) =
     ''{'' @ join '','' (map (\<lambda>kv. quote_string (fst kv) @ '':'' @ ref_stringify (snd kv))
                          (filter (\<lambda>kv. snd kv \<noteq> JUndefined) kvs)) @ ''}''"

definition is_json_ws :: "char \<Rightarrow> bool" where
  "is_json_ws c \<longleftrightarrow> c = CHR '' '' \<or> c = CHR 0x09 \<or> c = CHR 0x0A \<or> c = CHR 0x0D"

definition is_digit :: "char \<Rightarrow> bool" where
  "is_digit c \<longleftrightarrow> c \<in> set ''0123456789''"

definition digit_value :: "char \<Rightarrow> int" where
  "digit_value c =
     (case map_of (zip ''0123456789'' [0, 1, 2, 3, 4, 5, 6, 7, 8, 9]) c of None \<Rightarrow> 0 | Some d \<Rightarrow> d)"

definition digits_value :: "string \<Rightarrow> int" where
  "digits_value ds = foldl (\<lambda>acc c. 10 * acc + digit_value c) 0 ds"

text \<open>The characters of a string literal after its opening quote, and the rest of the input.\<close>

fun read_chars :: "string \<Rightarrow> (string \<times> string) option" where
  "read_chars [] = None"
| "read_chars (c # cs) =
     (if c = DQ then Some ([], cs)
      else if c = BS then
        (case cs of
           [] \<Rightarrow> None
         | e # r \<Rightarrow>
             (if e = CHR ''u'' then
                (case map_of (map (\<lambda>(ch, esc). (esc, ch)) string_escapes) (BS # CHR ''u'' # take 4 r) of
                   None \<Rightarrow> None
                 | Some ch \<Rightarrow>
                     (case read_chars r of
                        None \<Rightarrow> None
                      | Some (str, rest) \<Rightarrow>
                          if length str < 4 then None else Some (ch # drop 4 str, rest)))
              else
                (case map_of [(DQ, DQ), (BS, BS), (CHR ''/'', CHR ''/''), (CHR ''b'', CHR 0x08),
                              (CHR ''f'', CHR 0x0C), (CHR ''n'', CHR 0x0A), (CHR ''r'', CHR 0x0D),
                              (CHR ''t'', CHR 0x09)] e of
                   None \<Rightarrow> None
                 | Some ch \<Rightarrow>
                     (case read_chars r of
                        None \<Rightarrow> None
                      | Some (str, rest) \<Rightarrow> Some (ch # str, rest)))))
      else if map_of string_escapes c \<noteq> None then None
      else (case read_chars cs of
              None \<Rightarrow> None
            | Some (str, rest) \<Rightarrow> Some (c # str, rest)))"

definition read_number :: "string \<Rightarrow> (json \<times> string) option" where
  "read_number s =
     (let neg = (s \<noteq> [] \<and> hd s = CHR ''-'');
          body = (if neg then tl s else s);
          ds = takeWhile is_digit body;
          rest = dropWhile is_digit body
      in if ds = [] \<or> (length ds > 1 \<and> hd ds = CHR ''0'') then None
         else if rest \<noteq> [] \<and> hd rest \<in> set ''.eE'' then None
         else Some (JNum (Fin (if neg then - digits_value ds else digits_value ds)), rest))"

text \<open>A value that is not an array: a literal name, a string or a number.\<close>

definition read_scalar :: "string \<Rightarrow> (json \<times> string) option" where
  "read_scalar t =
     (if take 4 t = ''null'' then Some (JNull, drop 4 t)
      else if take 4 t = ''true'' then Some (JBool True, drop 4 t)
      else if take 5 t = ''false'' then Some (JBool False, drop 5 t)
      else if t \<noteq> [] \<and> hd t = DQ then
        (case read_chars (tl t) of
           None \<Rightarrow> None
         | Some (str, rest) \<Rightarrow> Some (JStr str, rest))
      else read_number t)"

datatype array_start = Scalar string | EmptyArray string | Elements string

definition read_opening :: "string \<Rightarrow> array_start" where
  "read_opening s =
     (let t = dropWhile is_json_ws s
      in if t \<noteq> [] \<and> hd t = CHR ''['' then
           (let u = dropWhile is_json_ws (tl t)
            in if u \<noteq> [] \<and> hd u = CHR '']'' then EmptyArray (tl u) else Elements u)
         else Scalar t)"

datatype separator = Close string | Comma string | NoSeparator

definition read_separator :: "string \<Rightarrow> separator" where
  "read_separator s =
     (let t = dropWhile is_json_ws s
      in if t \<noteq> [] \<and> hd t = CHR '']'' then Close (tl t)
         else if t \<noteq> [] \<and> hd t = CHR '','' then Comma (tl t)
         else NoSeparator)"

text \<open>
  One value, and the elements of an array after its opening bracket; the first
  argument bounds the depth of the recursion.
\<close>

fun read_value :: "nat \<Rightarrow> string \<Rightarrow> (json \<times> string) option"
  and read_elements :: "nat \<Rightarrow> string \<Rightarrow> (json list \<times> string) option" where
  "read_value 0 s = None"
| "read_value (Suc n) s =
     (case read_opening s of
        Scalar t \<Rightarrow> read_scalar t
      | EmptyArray rest \<Rightarrow> Some (JArr [], rest)
      | Elements u \<Rightarrow>
          (case read_elements n u of
             None \<Rightarrow> None
           | Some (vs, rest) \<Rightarrow> Some (JArr vs, rest)))"
| "read_elements 0 s = None"
| "read_elements (Suc n) s =
     (case read_value n s of
        None \<Rightarrow> None
      | Some (v, rest) \<Rightarrow>
          (case read_separator rest of
             Close rest' \<Rightarrow> Some ([v], rest')
           | Comma rest' \<Rightarrow>
               (case read_elements n rest' of
                  None \<Rightarrow> None
                | Some (vs, rest'') \<Rightarrow> Some (v # vs, rest''))
           | NoSeparator \<Rightarrow> None))"

definition ref_parse :: "string \<Rightarrow> json option" where
  "ref_parse s =
     (case read_value (Suc (length s)) s of
        None \<Rightarrow> None
      | Some (v, rest) \<Rightarrow> if dropWhile is_json_ws rest = [] then Some v else None)"

definition ref_toNumber :: "json \<Rightarrow> jsnum" where
  "ref_toNumber v =
     (case v of
        JUndefined \<Rightarrow> NaN
      | JNull \<Rightarrow> Fin 0
      | JBool b \<Rightarrow> Fin (if b then 1 else 0)
      | JNum n \<Rightarrow> n
      | JObj kvs \<Rightarrow> NaN
      | _ \<Rightarrow>
          (let s = trim (to_string v)
           in if s = [] then Fin 0
              else (case read_number s of
                      Some (JNum n, []) \<Rightarrow> n
                    | _ \<Rightarrow> NaN)))"

fun compare_strings :: "string \<Rightarrow> string \<Rightarrow> int" where
  "compare_strings [] [] = 0"
| "compare_strings [] (y # ys) = -1"
| "compare_strings (x # xs) [] = 1"
| "compare_strings (x # xs) (y # ys) =
     (if x = y then compare_strings xs ys
      else if (of_char x :: nat) < of_char y then -1 else 1)"

definition ref_platform :: platform where
  "ref_platform =
     \<lparr> JSON_stringify = ref_stringify,
       JSON_parse = ref_parse,
       toNumber = ref_toNumber,
       localeCompare = compare_strings,
       date_now = ''2024-05-01T10:00:00.000Z'',
       randomUUID = (\<lambda>n. ''uuid-'' @ nat_to_string n) \<rparr>"

section \<open>An example state\<close>

text \<open>Two task files as the server writes them on the reference platform, and an empty logbook.\<close>

definition example_task1 :: obj where
  "example_task1 =
     [''id'' \<mapsto> JStr ''t1'', ''title'' \<mapsto> JStr ''Pay rent'', ''description'' \<mapsto> JStr ''By Friday.'',
      ''tags'' \<mapsto> JArr [JStr ''Work''], ''done'' \<mapsto> JBool False, ''order'' \<mapsto> JNum (Fin 0),
      ''createdAt'' \<mapsto> JStr ''2024-04-01T08:00:00.000Z'',
      ''updatedAt'' \<mapsto> JStr ''2024-04-01T08:00:00.000Z'']"

definition example_task2 :: obj where
  "example_task2 =
     [''id'' \<mapsto> JStr ''t2'', ''title'' \<mapsto> JStr ''Call Ann'', ''description'' \<mapsto> JStr [],
      ''tags'' \<mapsto> JArr [JStr ''Home'', JStr ''work''], ''done'' \<mapsto> JBool True, ''order'' \<mapsto> JNum (Fin 1),
      ''createdAt'' \<mapsto> JStr ''2024-04-02T08:00:00.000Z'',
      ''updatedAt'' \<mapsto> JStr ''2024-04-02T08:00:00.000Z'']"

definition example_world :: world where
  "example_world =
     \<lparr> files = [(''t1--pay-rent.md'', taskToMarkdown ref_platform example_task1),
                (''t2--call-ann.md'', taskToMarkdown ref_platform example_task2)],
       logbook = [],
       uuid_count = 0 \<rparr>"

section \<open>Auxiliary notions for the proofs\<close>

text \<open>A string without leading or trailing whitespace.\<close>

definition trimmed :: "string \<Rightarrow> bool" where
  "trimmed s \<longleftrightarrow> (s = [] \<or> (\<not> is_space (hd s) \<and> \<not> is_space (last s)))"

text \<open>
  A tag list as the normalization loop leaves it, relative to the keys \<open>seen\<close> before:
  non-empty trimmed entries whose lower-cased keys are new and pairwise distinct.
\<close>

definition good_tags :: "string set \<Rightarrow> string list \<Rightarrow> bool" where
  "good_tags seen ts \<longleftrightarrow>
     (\<forall>t \<in> set ts. t \<noteq> [] \<and> trim t = t \<and> toLowerCase t \<notin> seen) \<and>
     distinct (map toLowerCase ts)"

text \<open>
  What the round trip through a task file needs of the platform's JSON codec at a
  value: \<open>JSON.parse\<close> reads back what \<open>JSON.stringify\<close> wrote, and the text written
  has no line break and no whitespace at its ends.
\<close>

definition codec_ok :: "platform \<Rightarrow> json \<Rightarrow> bool" where
  "codec_ok P v \<longleftrightarrow>
     JSON_parse P (JSON_stringify P v) = Some v \<and>
     NL \<notin> set (JSON_stringify P v) \<and>
     trim (JSON_stringify P v) = JSON_stringify P v"

text \<open>The values that \<open>taskToMarkdown\<close> puts in the metadata block of a task.\<close>

definition frontmatter_values :: "task \<Rightarrow> json list" where
  "frontmatter_values t =
     [JStr (t_id t), JStr (t_title t), JArr (map JStr (t_tags t)), JBool (t_done t),
      JNum (t_order t), t_createdAt t, t_updatedAt t]"

definition fields_ok :: "platform \<Rightarrow> task \<Rightarrow> bool" where
  "fields_ok P t \<longleftrightarrow> list_all (codec_ok P) (frontmatter_values t)"

text \<open>
  A task directory in order: the file names are distinct, every file is a markdown
  file that parses to a task whose file name it bears, and the ids of the tasks are
  distinct.
\<close>

definition canonical_files :: "platform \<Rightarrow> (string \<times> string) list \<Rightarrow> bool" where
  "canonical_files P fs \<longleftrightarrow>
     distinct (map fst fs) \<and>
     (\<forall>f \<in> set fs. is_markdown (fst f) \<and>
        (case parseMarkdownTask P (snd f) of Inl e \<Rightarrow> False | Inr t \<Rightarrow> fst f = taskFilename t))"

definition store_ok :: "platform \<Rightarrow> world \<Rightarrow> bool" where
  "store_ok P w \<longleftrightarrow>
     files w \<noteq> [] \<and> canonical_files P (files w) \<and>
     distinct (map (\<lambda>r. t_id (r_task r)) (read_files P (files w)))"

text \<open>A task carries a tag when one of its tags equals it in lower case.\<close>

definition has_tag :: "string \<Rightarrow> task \<Rightarrow> bool" where
  "has_tag tag t \<longleftrightarrow> toLowerCase tag \<in> toLowerCase ` set (t_tags t)"

text \<open>What deleting a tag everywhere makes of a stored record.\<close>

definition tag_removed_record :: "platform \<Rightarrow> string \<Rightarrow> task_record \<Rightarrow> task_record" where
  "tag_removed_record P tag r =
     (if has_tag tag (r_task r) then r\<lparr> r_task := tag_removed P tag (r_task r) \<rparr> else r)"




text \<open>
  The reordering as the specification words it: the incoming ids that are known, each
  at its first occurrence, followed by the known ids that are not among the incoming
  ones, in their previous order.
\<close>

definition first_occurrences :: "'a list \<Rightarrow> 'a list" where
  "first_occurrences xs = rev (remdups (rev xs))"





section \<open>Trimming\<close>

lemma dropWhile_hd_id: "s \<noteq> [] \<Longrightarrow> \<not> P (hd s) \<Longrightarrow> dropWhile P s = s"
  by (cases s) auto

lemma trimmed_trim_id: "trimmed s \<Longrightarrow> trim s = s"
proof (cases "s = []")
  case True
  then show ?thesis by (simp add: trim_def trimStart_def trimEnd_def)
next
  case False
  assume "trimmed s"
  with False have h: "\<not> is_space (hd s)" and l: "\<not> is_space (last s)"
    by (auto simp: trimmed_def)
  have "dropWhile is_space s = s" using False h by (rule dropWhile_hd_id)
  moreover have "dropWhile is_space (rev s) = rev s"
    using False l by (intro dropWhile_hd_id) (auto simp: hd_rev)
  ultimately show ?thesis by (simp add: trim_def trimStart_def trimEnd_def)
qed

lemma trimmed_trim: "trimmed (trim s)"
proof (cases "dropWhile is_space s")
  case Nil
  have "trim s = []" by (simp only: trim_def trimStart_def trimEnd_def Nil) simp
  then show ?thesis by (simp add: trimmed_def)
next
  case (Cons c cs)
  then have c: "\<not> is_space c" using hd_dropWhile[of is_space s] by auto
  have "\<exists>zs. dropWhile is_space (rev (c # cs)) = zs @ [c]"
    using c by (simp add: dropWhile_append)
  then obtain zs where zs: "dropWhile is_space (rev (c # cs)) = zs @ [c]" ..
  have t: "trim s = c # rev zs"
    using Cons zs by (simp add: trim_def trimStart_def trimEnd_def)
  have "\<not> is_space (hd (dropWhile is_space (rev (c # cs))))"
    by (rule hd_dropWhile) (simp only: zs, simp)
  then have "\<not> is_space (hd (zs @ [c]))" unfolding zs .
  then have "\<not> is_space (last (c # rev zs))"
    by (cases zs) (auto simp: last_rev)
  with c t show ?thesis by (simp add: trimmed_def)
qed

lemma trim_trim: "trim (trim s) = trim s"
  by (simp add: trimmed_trim trimmed_trim_id)



section \<open>Properties of tag normalization\<close>

lemma collect_tags_acc: "collect_tags vs seen acc = acc @ collect_tags vs seen []"
proof (induction vs arbitrary: seen acc)
  case Nil
  then show ?case by simp
next
  case (Cons v vs)
  show ?case
    using Cons.IH[of seen acc] Cons.IH[of "insert (toLowerCase (trim (to_string (coalesce v (JStr []))))) seen" "acc @ [trim (to_string (coalesce v (JStr [])))]"]
      Cons.IH[of "insert (toLowerCase (trim (to_string (coalesce v (JStr []))))) seen" "[trim (to_string (coalesce v (JStr [])))]"]
    by (simp add: Let_def)
qed

lemma good_tags_collect: "good_tags seen (collect_tags vs seen [])"
proof (induction vs arbitrary: seen)
  case Nil
  then show ?case by (simp add: good_tags_def)
next
  case (Cons v vs)
  let ?tag = "trim (to_string (coalesce v (JStr [])))"
  show ?case
  proof (cases "?tag = [] \<or> toLowerCase ?tag \<in> seen")
    case True
    then show ?thesis using Cons.IH[of seen] by (auto simp: Let_def)
  next
    case False
    have "collect_tags (v # vs) seen [] = ?tag # collect_tags vs (insert (toLowerCase ?tag) seen) []"
      using False collect_tags_acc[of vs "insert (toLowerCase ?tag) seen" "[?tag]"] by (simp add: Let_def)
    moreover have "good_tags seen (?tag # collect_tags vs (insert (toLowerCase ?tag) seen) [])"
      using False Cons.IH[of "insert (toLowerCase ?tag) seen"]
      by (auto simp: good_tags_def trim_trim)
    ultimately show ?thesis by simp
  qed
qed

lemma collect_tags_good: "good_tags seen ts \<Longrightarrow> collect_tags (map JStr ts) seen acc = acc @ ts"
proof (induction ts arbitrary: seen acc)
  case Nil
  then show ?case by simp
next
  case (Cons t ts)
  from Cons.prems have t: "t \<noteq> []" "trim t = t" "toLowerCase t \<notin> seen"
    by (simp_all add: good_tags_def)
  have rest: "good_tags (insert (toLowerCase t) seen) ts"
    unfolding good_tags_def
  proof (intro conjI ballI)
    fix u assume u: "u \<in> set ts"
    with Cons.prems show "u \<noteq> []" "trim u = u" by (simp_all add: good_tags_def)
    from Cons.prems have "toLowerCase t \<notin> toLowerCase ` set ts" "toLowerCase u \<notin> seen"
      using u by (simp_all add: good_tags_def)
    then show "toLowerCase u \<notin> insert (toLowerCase t) seen" using u by (metis imageI insertE)
  next
    from Cons.prems show "distinct (map toLowerCase ts)" by (simp add: good_tags_def)
  qed
  have "collect_tags (map JStr (t # ts)) seen acc
        = collect_tags (map JStr ts) (insert (toLowerCase t) seen) (acc @ [t])"
    using t by (simp add: coalesce_def nullish_def)
  also have "\<dots> = (acc @ [t]) @ ts" by (rule Cons.IH[OF rest])
  finally show ?case by simp
qed


lemma good_tags_General: "good_tags {} [''General'']"
  by (simp add: good_tags_def trim_def trimStart_def trimEnd_def is_space_def)

lemma normalizeTags_good: "good_tags {} (normalizeTags v fid) \<and> normalizeTags v fid \<noteq> []"
  using good_tags_collect[of "{}"] good_tags_General
  by (auto simp: normalizeTags_def Let_def)

lemma normalizeTaskTags_good: "good_tags {} (normalizeTaskTags task) \<and> normalizeTaskTags task \<noteq> []"
  using good_tags_collect[of "{}"] good_tags_General
  by (auto simp: normalizeTaskTags_def Let_def DEFAULT_TAG_def)

lemma normalizeTags_fix:
  assumes "good_tags {} ts" and "ts \<noteq> []"
  shows "normalizeTags (JArr (map JStr ts)) fid = ts"
  using assms collect_tags_good[of "{}" ts "[]"] by (simp add: normalizeTags_def)

lemma normalizeTaskTags_fix:
  assumes "good_tags {} ts" and "ts \<noteq> []"
  shows "normalizeTaskTags [''tags'' \<mapsto> JArr (map JStr ts)] = ts"
  using assms collect_tags_good[of "{}" ts "[]"] by (simp add: normalizeTaskTags_def get_prop_def)

text \<open>
  Claim C5. Tag normalization is idempotent: normalizing the output of \<open>normalizeTags\<close>
  (a list of trimmed, non-empty, case-insensitively distinct tags, never empty) gives
  that output back, for every input value and whichever fallback task ids are used;
  likewise for the UI's \<open>normalizeTaskTags\<close>.
\<close>

theorem tag_normalization_idempotent:
  "normalizeTags (JArr (map JStr (normalizeTags inputTags fallbackTaskId))) fallbackTaskId'
     = normalizeTags inputTags fallbackTaskId
   \<and> normalizeTaskTags [''tags'' \<mapsto> JArr (map JStr (normalizeTaskTags task))] = normalizeTaskTags task"
  using normalizeTags_good normalizeTags_fix normalizeTaskTags_good normalizeTaskTags_fix by simp

section \<open>The normalized task\<close>

lemma normalizeTask_title: "t_title (normalizeTask P task) \<noteq> [] \<and> trim (t_title (normalizeTask P task)) = t_title (normalizeTask P task)"
  by (simp add: normalizeTask_def Let_def trim_trim) (simp add: trim_def trimStart_def trimEnd_def is_space_def)

text \<open>
  Claim C9, as amended. With a non-empty clock reading, every output of
  \<open>normalizeTask\<close> has a non-empty trimmed title (\<open>Untitled\<close> when the input has
  none), a non-empty list of non-empty trimmed tags that are pairwise distinct
  case-insensitively, the truth value of the input's \<open>done\<close>, a finite order (0 when
  the input has none), and truthy \<open>createdAt\<close> and \<open>updatedAt\<close>: the input's value
  when that is truthy, of whatever type, and the clock reading otherwise.
\<close>

theorem normalizeTask_invariant:
  assumes "date_now P \<noteq> []"
  shows "t_title (normalizeTask P task) \<noteq> []
       \<and> trim (t_title (normalizeTask P task)) = t_title (normalizeTask P task)
       \<and> (nullish (get_prop task ''title'') \<longrightarrow> t_title (normalizeTask P task) = ''Untitled'')
       \<and> t_tags (normalizeTask P task) \<noteq> []
       \<and> (\<forall>g \<in> set (t_tags (normalizeTask P task)). g \<noteq> [] \<and> trim g = g)
       \<and> distinct (map toLowerCase (t_tags (normalizeTask P task)))
       \<and> t_done (normalizeTask P task) = truthy (get_prop task ''done'')
       \<and> (\<exists>i. t_order (normalizeTask P task) = Fin i)
       \<and> (get_prop task ''order'' = JUndefined \<longrightarrow> t_order (normalizeTask P task) = Fin 0)
       \<and> truthy (t_createdAt (normalizeTask P task))
       \<and> truthy (t_updatedAt (normalizeTask P task))
       \<and> t_createdAt (normalizeTask P task)
           = (if truthy (get_prop task ''createdAt'') then get_prop task ''createdAt''
              else JStr (date_now P))
       \<and> t_updatedAt (normalizeTask P task)
           = (if truthy (get_prop task ''updatedAt'') then get_prop task ''updatedAt''
              else JStr (date_now P))"
proof -
  let ?t = "normalizeTask P task"
  have tags: "good_tags {} (t_tags ?t) \<and> t_tags ?t \<noteq> []"
    using normalizeTags_good by (simp add: normalizeTask_def Let_def)
  have untitled: "nullish (get_prop task ''title'') \<longrightarrow> t_title ?t = ''Untitled''"
    by (simp add: normalizeTask_def Let_def coalesce_def trim_def trimStart_def trimEnd_def is_space_def)
  have ord: "(\<exists>i. t_order ?t = Fin i) \<and> (get_prop task ''order'' = JUndefined \<longrightarrow> t_order ?t = Fin 0)"
    by (auto simp: normalizeTask_def Let_def finite_or_zero_def split: json.splits jsnum.splits)
  have stamps: "truthy (t_createdAt ?t) \<and> truthy (t_updatedAt ?t)"
    using assms by (simp add: normalizeTask_def Let_def js_or_def)
  have vals: "t_createdAt ?t = (if truthy (get_prop task ''createdAt'') then get_prop task ''createdAt'' else JStr (date_now P))"
    "t_updatedAt ?t = (if truthy (get_prop task ''updatedAt'') then get_prop task ''updatedAt'' else JStr (date_now P))"
    "t_done ?t = truthy (get_prop task ''done'')"
    by (simp_all add: normalizeTask_def Let_def js_or_def)
  show ?thesis
    using normalizeTask_title[of P task] tags untitled ord stamps vals
    by (simp add: good_tags_def)
qed

theorem normalizeTask_invariant_witness:
  "date_now ref_platform \<noteq> []
   \<and> t_title (normalizeTask ref_platform [''id'' \<mapsto> JStr ''t9'', ''tags'' \<mapsto> JStr ''Home, Work,home'']) = ''Untitled''
   \<and> t_tags (normalizeTask ref_platform [''id'' \<mapsto> JStr ''t9'', ''tags'' \<mapsto> JStr ''Home, Work,home'']) = [''Home'', ''Work'']
   \<and> distinct (map toLowerCase (t_tags (normalizeTask ref_platform [''id'' \<mapsto> JStr ''t9'', ''tags'' \<mapsto> JStr ''Home, Work,home''])))
   \<and> t_order (normalizeTask ref_platform [''id'' \<mapsto> JStr ''t9'', ''tags'' \<mapsto> JStr ''Home, Work,home'']) = Fin 0
   \<and> truthy (t_createdAt (normalizeTask ref_platform [''id'' \<mapsto> JStr ''t9'', ''tags'' \<mapsto> JStr ''Home, Work,home'']))"
proof -
  have h: "date_now ref_platform \<noteq> []" by (simp add: ref_platform_def)
  have tg: "t_tags (normalizeTask ref_platform [''id'' \<mapsto> JStr ''t9'', ''tags'' \<mapsto> JStr ''Home, Work,home'']) = [''Home'', ''Work'']"
    by (simp add: normalizeTask_def normalizeTags_def get_prop_def coalesce_def nullish_def trim_def trimStart_def trimEnd_def is_space_def toLowerCase_def lower_char_def)
  show ?thesis
    using h tg normalizeTask_invariant[OF h, of "[''id'' \<mapsto> JStr ''t9'', ''tags'' \<mapsto> JStr ''Home, Work,home'']"]
    by (simp add: get_prop_def nullish_def)
qed

text \<open>
  The claim as stated asks for \<open>createdAt\<close> to be a string: a task whose
  \<open>createdAt\<close> is the number 5 keeps the number.
\<close>

theorem createdAt_not_string_counterexample:
  "t_createdAt (normalizeTask ref_platform [''id'' \<mapsto> JStr ''t1'', ''title'' \<mapsto> JStr ''Pay rent'', ''createdAt'' \<mapsto> JNum (Fin 5)])
     = JNum (Fin 5)"
  by (simp add: normalizeTask_def get_prop_def js_or_def Let_def)

section \<open>Normalizing twice\<close>

lemma finite_or_zero_Fin: "\<exists>i. finite_or_zero v = Fin i"
  by (auto simp: finite_or_zero_def split: json.splits jsnum.splits)

lemma finite_or_zero_idem: "finite_or_zero (JNum (finite_or_zero v)) = finite_or_zero v"
  by (auto simp: finite_or_zero_def split: json.splits jsnum.splits)

lemma js_or_idem: "js_or (js_or a b) b = js_or a b"
  by (simp add: js_or_def)

lemma get_prop_task_obj:
  "get_prop (task_obj t) ''id'' = JStr (t_id t)"
  "get_prop (task_obj t) ''title'' = JStr (t_title t)"
  "get_prop (task_obj t) ''description'' = JStr (t_description t)"
  "get_prop (task_obj t) ''tags'' = JArr (map JStr (t_tags t))"
  "get_prop (task_obj t) ''tag'' = JUndefined"
  "get_prop (task_obj t) ''done'' = JBool (t_done t)"
  "get_prop (task_obj t) ''order'' = JNum (t_order t)"
  "get_prop (task_obj t) ''createdAt'' = t_createdAt t"
  "get_prop (task_obj t) ''updatedAt'' = t_updatedAt t"
  by (simp_all add: get_prop_def task_obj_def)

text \<open>A task is normal when \<open>normalizeTask\<close> maps it to itself.\<close>

lemma normalizeTask_task_obj:
  "normalizeTask P (task_obj (normalizeTask P task)) = normalizeTask P task"
proof -
  let ?t = "normalizeTask P task"
  have tags: "normalizeTags (JArr (map JStr (t_tags ?t))) (t_id ?t) = t_tags ?t"
    using normalizeTags_good[of "coalesce (get_prop task ''tags'') (get_prop task ''tag'')" "t_id ?t"]
    by (simp add: normalizeTask_def Let_def normalizeTags_fix)
  have title: "trim (t_title ?t) = t_title ?t" "t_title ?t \<noteq> []"
    using normalizeTask_title[of P task] by simp_all
  have ord: "finite_or_zero (JNum (t_order ?t)) = t_order ?t"
    by (simp add: normalizeTask_def Let_def finite_or_zero_idem)
  have stamps: "js_or (t_createdAt ?t) (JStr (date_now P)) = t_createdAt ?t"
    "js_or (t_updatedAt ?t) (JStr (date_now P)) = t_updatedAt ?t"
    by (simp_all add: normalizeTask_def Let_def js_or_idem)
  have "normalizeTask P (task_obj ?t) =
        \<lparr> t_id = t_id ?t, t_title = t_title ?t, t_description = t_description ?t,
          t_tags = t_tags ?t, t_done = t_done ?t, t_order = t_order ?t,
          t_createdAt = t_createdAt ?t, t_updatedAt = t_updatedAt ?t \<rparr>"
    using tags title ord stamps
    by (simp add: normalizeTask_def[of P "task_obj ?t"] get_prop_task_obj coalesce_def nullish_def Let_def)
  then show ?thesis by simp
qed

section \<open>Reading and writing leave the logbook alone\<close>

lemma writeTask_world:
  "logbook (snd (writeTask P task prev w)) = logbook w"
  "uuid_count (snd (writeTask P task prev w)) = uuid_count w"
  "fileName (fst (writeTask P task prev w)) = taskFilename (normalizeTask P task)"
  "r_task (fst (writeTask P task prev w)) = normalizeTask P task"
  by (simp_all add: writeTask_def Let_def)

lemma write_seeds_world:
  "logbook (write_seeds P seeds w) = logbook w \<and> uuid_count (write_seeds P seeds w) = uuid_count w"
  by (induction seeds arbitrary: w) (simp_all add: writeTask_world)

lemma getTaskRecords_world:
  "logbook (snd (getTaskRecords P w)) = logbook w"
  "uuid_count (snd (getTaskRecords P w)) = uuid_count w"
  by (simp_all add: getTaskRecords_def ensureSeedTasks_def Let_def write_seeds_world)

lemma findTaskRecordById_world:
  assumes "findTaskRecordById P taskId w = (found, w1)"
  shows "logbook w1 = logbook w" and "uuid_count w1 = uuid_count w"
  using assms getTaskRecords_world[of P w]
  by (auto simp: findTaskRecordById_def Let_def split: prod.splits)

section \<open>Updating a task\<close>



lemma update_fields_done:
  "t_done (normalizeTask P (update_fields P body stored nextTitle))
     = (if has_prop body ''done'' then truthy (get_prop body ''done'') else t_done stored)"
  by (simp add: update_fields_def normalizeTask_def Let_def get_prop_def task_obj_def)

lemma update_fields_tags:
  assumes "body ''tags'' = Some v"
  shows "t_tags (normalizeTask P (update_fields P body stored nextTitle))
           = normalizeTags (coalesce v JUndefined) (t_id stored)"
  using assms
  by (simp add: update_fields_def normalizeTask_def Let_def get_prop_def task_obj_def has_prop_def)

lemma handleUpdateTask_found:
  assumes "findTaskRecordById P taskId w = (Some record, w1)"
  shows "handleUpdateTask P body taskId w =
     (if nextTitle_of body record = [] then ((400, ErrorPayload ''Title is required.''), w1)
      else
        (let updatedTask = normalizeTask P (update_fields P body (r_task record) (nextTitle_of body record));
             w2 = snd (writeTask P (task_obj updatedTask) (Some (fileName record)) w1);
             w3 = (if has_prop body ''done'' \<and> t_done updatedTask \<noteq> t_done (r_task record)
                   then snd (appendLogEntry P
                               (if t_done updatedTask then ''task_completed'' else ''task_reopened'')
                               (JObj [(''taskId'', JStr (t_id updatedTask)),
                                      (''title'', JStr (t_title updatedTask)),
                                      (''task'', task_json updatedTask)])
                               w2)
                   else w2)
         in ((200, TaskPayload updatedTask), w3)))"
  using assms
  by (simp add: handleUpdateTask_def Let_def split_beta writeTask_world normalizeTask_task_obj)

text \<open>
  Claim C7. For an update of an existing task: when the body contains \<open>done\<close>, the
  update is accepted and the value written differs from the stored one, exactly one
  entry is appended to the logbook, of type \<open>task_completed\<close> when the new value is
  true and \<open>task_reopened\<close> when it is false; in every other case (no \<open>done\<close> in the
  body, the same value, or a rejected update) the logbook is unchanged. The value
  written is the truth value of \<open>body.done\<close> when the body contains it and the
  stored value otherwise.
\<close>

theorem update_done_event:
  assumes "findTaskRecordById P taskId w = (Some record, w1)"
  shows "(if nextTitle_of body record \<noteq> [] \<and> has_prop body ''done''
             \<and> truthy (get_prop body ''done'') \<noteq> t_done (r_task record)
          then \<exists>e. logbook (snd (handleUpdateTask P body taskId w)) = logbook w @ [e]
                 \<and> le_type e = (if truthy (get_prop body ''done'') then ''task_completed''
                                else ''task_reopened'')
          else logbook (snd (handleUpdateTask P body taskId w)) = logbook w)
       \<and> (if nextTitle_of body record \<noteq> []
          then \<exists>t. fst (handleUpdateTask P body taskId w) = (200, TaskPayload t)
                 \<and> t_done t = (if has_prop body ''done'' then truthy (get_prop body ''done'')
                               else t_done (r_task record))
          else fst (handleUpdateTask P body taskId w) = (400, ErrorPayload ''Title is required.''))"
  using findTaskRecordById_world[OF assms]
  by (simp add: handleUpdateTask_found[OF assms] Let_def update_fields_done writeTask_world
      appendLogEntry_def)


section \<open>Stored records\<close>









section \<open>Files\<close>



lemma names_writeFile: "fst ` set (writeFile name content fs) = insert name (fst ` set fs)"
  by (auto simp: writeFile_def image_iff split: if_splits) force+


text \<open>
  Claim C10. When an accepted update of an existing task carries a string as \<open>tags\<close>:
  a string with a comma is split at the commas and the pieces are normalized as an
  array of tags would be; a string without a comma gives the one-element list of the
  trimmed string (or of the default tag when nothing is left of it).
\<close>

theorem update_tags_string:
  assumes "findTaskRecordById P taskId w = (Some record, w1)"
    and "nextTitle_of body record \<noteq> []"
    and "body ''tags'' = Some (JStr s)"
  shows "\<exists>t. fst (handleUpdateTask P body taskId w) = (200, TaskPayload t)
           \<and> t_tags t =
               (if CHR '','' \<in> set s
                then normalizeTags (JArr (map JStr (split_on (CHR '','') s))) (t_id (r_task record))
                else if trim s = [] then [''General''] else [trim s])"
proof -
  let ?t = "normalizeTask P (update_fields P body (r_task record) (nextTitle_of body record))"
  have resp: "fst (handleUpdateTask P body taskId w) = (200, TaskPayload ?t)"
    using assms(2) by (simp add: handleUpdateTask_found[OF assms(1)] Let_def)
  have "t_tags ?t = normalizeTags (JStr s) (t_id (r_task record))"
    using assms(3) by (simp add: update_fields_tags coalesce_def nullish_def)
  also have "\<dots> = (if CHR '','' \<in> set s
                then normalizeTags (JArr (map JStr (split_on (CHR '','') s))) (t_id (r_task record))
                else if trim s = [] then [''General''] else [trim s])"
    by (simp add: normalizeTags_def nullish_def coalesce_def Let_def)
  finally show ?thesis using resp by blast
qed

section \<open>Creating a task\<close>


section \<open>The example state, evaluated\<close>

lemma example_records:
  "getTaskRecords ref_platform example_world =
     ([\<lparr> fileName = ''t1--pay-rent.md'', r_task = normalizeTask ref_platform example_task1 \<rparr>,
       \<lparr> fileName = ''t2--call-ann.md'', r_task = normalizeTask ref_platform example_task2 \<rparr>],
      example_world)"
  by code_simp

lemma example_ids:
  "t_id (normalizeTask ref_platform example_task1) = ''t1''"
  "t_id (normalizeTask ref_platform example_task2) = ''t2''"
  by (simp_all add: normalizeTask_def Let_def get_prop_def example_task1_def example_task2_def)

lemma example_found:
  "findTaskRecordById ref_platform ''t1'' example_world =
     (Some \<lparr> fileName = ''t1--pay-rent.md'', r_task = normalizeTask ref_platform example_task1 \<rparr>,
      example_world)"
  by (simp add: findTaskRecordById_def example_records example_ids)

lemma example_task1_fields:
  "t_title (normalizeTask ref_platform example_task1) = ''Pay rent''"
  "t_done (normalizeTask ref_platform example_task1) = False"
  "t_tags (normalizeTask ref_platform example_task1) = [''Work'']"
  by code_simp+

text \<open>The example state satisfies the hypotheses of the theorems on updates.\<close>

theorem update_done_event_witness:
  "findTaskRecordById ref_platform ''t1'' example_world =
     (Some \<lparr> fileName = ''t1--pay-rent.md'', r_task = normalizeTask ref_platform example_task1 \<rparr>,
      example_world)
   \<and> map le_type (logbook (snd (handleUpdateTask ref_platform [''done'' \<mapsto> JBool True] ''t1'' example_world)))
       = [''task_completed'']
   \<and> logbook (snd (handleUpdateTask ref_platform [''done'' \<mapsto> JBool False] ''t1'' example_world)) = []"
  using example_found
    update_done_event[OF example_found, of "[''done'' \<mapsto> JBool True]"]
    update_done_event[OF example_found, of "[''done'' \<mapsto> JBool False]"]
  by (auto simp: nextTitle_of_def get_prop_def has_prop_def example_task1_fields example_world_def)

theorem update_tags_string_witness:
  "findTaskRecordById ref_platform ''t1'' example_world =
     (Some \<lparr> fileName = ''t1--pay-rent.md'', r_task = normalizeTask ref_platform example_task1 \<rparr>,
      example_world)
   \<and> nextTitle_of [''tags'' \<mapsto> JStr ''a,b'']
        \<lparr> fileName = ''t1--pay-rent.md'', r_task = normalizeTask ref_platform example_task1 \<rparr> \<noteq> []
   \<and> (\<exists>t. fst (handleUpdateTask ref_platform [''tags'' \<mapsto> JStr ''a,b''] ''t1'' example_world)
              = (200, TaskPayload t) \<and> t_tags t = [''a'', ''b''])
   \<and> (\<exists>t. fst (handleUpdateTask ref_platform [''tags'' \<mapsto> JStr '' Errands ''] ''t1'' example_world)
              = (200, TaskPayload t) \<and> t_tags t = [''Errands''])"
proof -
  have n1: "nextTitle_of [''tags'' \<mapsto> JStr ''a,b'']
        \<lparr> fileName = ''t1--pay-rent.md'', r_task = normalizeTask ref_platform example_task1 \<rparr> \<noteq> []"
    and n2: "nextTitle_of [''tags'' \<mapsto> JStr '' Errands '']
        \<lparr> fileName = ''t1--pay-rent.md'', r_task = normalizeTask ref_platform example_task1 \<rparr> \<noteq> []"
    by (simp_all add: nextTitle_of_def get_prop_def example_task1_fields)
  have t1: "normalizeTags (JArr [JStr ''a'', JStr ''b'']) ''t1'' = [''a'', ''b'']"
    by code_simp
  have t2: "trim '' Errands '' = ''Errands''" by code_simp
  show ?thesis
    using example_found n1
      update_tags_string[OF example_found n1, of "''a,b''"]
      update_tags_string[OF example_found n2, of "'' Errands ''"]
    by (auto simp: t1 t2 example_ids)
qed




section \<open>More on trimming\<close>

lemma trim_Cons_space: "is_space c \<Longrightarrow> trim (c # s) = trim s"
  by (simp add: trim_def trimStart_def)

lemma trimStart_nonspace: "\<not> is_space c \<Longrightarrow> trimStart (c # s) = c # s"
  by (simp add: trimStart_def)

lemma trimEnd_nonempty: "\<not> is_space c \<Longrightarrow> trimEnd (c # s) \<noteq> []"
proof -
  assume c: "\<not> is_space c"
  have "dropWhile is_space (rev s @ [c]) \<noteq> []"
    using c by (simp add: dropWhile_append)
  then show ?thesis by (simp add: trimEnd_def)
qed

lemma trim_Cons_nonspace: "\<not> is_space c \<Longrightarrow> trim (c # s) \<noteq> []"
  by (simp add: trim_def trimStart_nonspace trimEnd_nonempty)

lemma trimEnd_snoc_space: "is_space c \<Longrightarrow> trimEnd (s @ [c]) = trimEnd s"
  by (simp add: trimEnd_def)

lemma trimEnd_idem: "trimEnd (trimEnd s) = trimEnd s"
proof (cases "dropWhile is_space (rev s)")
  case Nil
  then show ?thesis by (simp add: trimEnd_def)
next
  case (Cons c cs)
  then have "\<not> is_space c" using hd_dropWhile[of is_space "rev s"] by auto
  with Cons show ?thesis by (simp add: trimEnd_def)
qed

text \<open>Trimming at the two ends in either order.\<close>

lemma trimStart_trimEnd: "trimStart (trimEnd s) = trimEnd (trimStart s)"
proof (cases "\<forall>c \<in> set s. is_space c")
  case True
  then have e: "trimStart s = []" "trimEnd s = []" by (simp_all add: trimStart_def trimEnd_def)
  have n: "trimStart [] = []" "trimEnd [] = []" by (simp_all add: trimStart_def trimEnd_def)
  show ?thesis by (simp only: e n)
next
  case False
  define a where "a = takeWhile is_space s"
  define d where "d = dropWhile is_space s"
  have s: "s = a @ d" by (simp add: a_def d_def)
  have a: "\<forall>c \<in> set a. is_space c" by (auto simp: a_def dest: set_takeWhileD)
  from False have dne: "d \<noteq> []" by (auto simp: d_def)
  then have hd: "\<not> is_space (hd d)" using hd_dropWhile[of is_space s] by (simp add: d_def)
  from False have ex: "\<exists>c \<in> set (rev d). \<not> is_space c" using a s by auto
  have e1: "trimEnd s = a @ trimEnd d"
    using ex by (auto simp: trimEnd_def s dropWhile_append)
  obtain c cs where dc: "d = c # cs" using dne by (cases d) auto
  with hd have c: "\<not> is_space c" by simp
  have "trimEnd d \<noteq> []" using c by (simp add: dc trimEnd_nonempty)
  moreover have "hd (trimEnd d) = c"
  proof -
    have "dropWhile is_space (rev cs @ [c]) = dropWhile is_space (rev cs) @ [c] \<or>
          dropWhile is_space (rev cs @ [c]) = [c]"
      using c by (simp add: dropWhile_append)
    then show ?thesis by (auto simp: trimEnd_def dc)
  qed
  ultimately have "dropWhile is_space (trimEnd d) = trimEnd d"
    using c by (intro dropWhile_hd_id) simp_all
  then have "trimStart (trimEnd s) = trimEnd d"
    using a by (simp add: e1 trimStart_def)
  moreover have "trimStart s = d" by (simp add: trimStart_def d_def)
  ultimately show ?thesis by simp
qed

lemma trim_alt: "trim s = trimStart (trimEnd s)"
  by (simp add: trim_def trimStart_trimEnd)

text \<open>The body that \<open>taskToMarkdown\<close> writes trims to the trimmed description.\<close>

lemma trim_body: "trim (NL # trimEnd d @ [NL]) = trim d"
proof -
  have nl: "is_space NL" by (simp add: is_space_def)
  have "trim (NL # trimEnd d @ [NL]) = trim (trimEnd d @ [NL])"
    using nl by (rule trim_Cons_space)
  also have "\<dots> = trimStart (trimEnd (trimEnd d @ [NL]))" by (rule trim_alt)
  also have "\<dots> = trimStart (trimEnd d)"
    using nl by (simp add: trimEnd_snoc_space trimEnd_idem)
  also have "\<dots> = trim d" by (simp add: trim_alt)
  finally show ?thesis .
qed

section \<open>Splitting and searching joined lines\<close>

lemma split_on_line: "sep \<notin> set l \<Longrightarrow> split_on sep l = [l]"
  by (induction l) auto

lemma split_on_append:
  "sep \<notin> set l \<Longrightarrow> split_on sep (l @ sep # rest) = l # split_on sep rest"
  by (induction l) auto

lemma split_on_join:
  assumes "ls \<noteq> []" and "\<forall>l \<in> set ls. sep \<notin> set l"
  shows "split_on sep (join [sep] ls) = ls"
  using assms
proof (induction "[sep]" ls rule: join.induct)
  case 1
  then show ?case by simp
next
  case (2 x)
  then show ?case by (simp add: split_on_line)
next
  case (3 x y zs)
  then show ?case by (simp add: split_on_append)
qed

lemma find_delim_end: "NL \<notin> set l \<Longrightarrow> find_delim (l @ NL # ''---'' @ r) = Some (l, r)"
  by (induction l) auto

lemma find_delim_line:
  assumes "NL \<notin> set l" and "rest \<noteq> []" and "hd rest \<noteq> CHR ''-''"
  shows "find_delim (l @ NL # rest) =
           (case find_delim rest of None \<Rightarrow> None | Some (m, r) \<Rightarrow> Some (l @ NL # m, r))"
  using assms
proof (induction l)
  case Nil
  then obtain c cs where "rest = c # cs" by (cases rest) auto
  with Nil show ?case by (auto split: option.splits)
next
  case (Cons a l)
  then show ?case by (auto split: option.splits)
qed

lemma join_nonempty: "ls \<noteq> [] \<Longrightarrow> hd ls \<noteq> [] \<Longrightarrow> join sep ls \<noteq> [] \<and> hd (join sep ls) = hd (hd ls)"
  by (induction sep ls rule: join.induct) auto

lemma find_delim_join:
  assumes "ls \<noteq> []" and "\<forall>l \<in> set ls. l \<noteq> [] \<and> hd l \<noteq> CHR ''-'' \<and> NL \<notin> set l"
  shows "find_delim (join [NL] ls @ NL # ''---'' @ r) = Some (join [NL] ls, r)"
  using assms
proof (induction "[NL]" ls rule: join.induct)
  case 1
  then show ?case by simp
next
  case (2 x)
  then show ?case using find_delim_end[of x r] by simp
next
  case (3 x y zs)
  have rec: "find_delim (join [NL] (y # zs) @ NL # ''---'' @ r) = Some (join [NL] (y # zs), r)"
    using 3 by simp
  have ne: "join [NL] (y # zs) @ NL # ''---'' @ r \<noteq> []"
    "hd (join [NL] (y # zs) @ NL # ''---'' @ r) \<noteq> CHR ''-''"
    using 3(3) join_nonempty[of "y # zs" "[NL]"] by auto
  have "find_delim (x @ NL # (join [NL] (y # zs) @ NL # ''---'' @ r))
        = Some (x @ NL # join [NL] (y # zs), r)"
    using find_delim_line[OF _ ne, of x] 3(3) rec by simp
  then show ?case by simp
qed

section \<open>The round trip through a task file\<close>

lemma key_trims:
  "trim ''id'' = ''id''" "trim ''title'' = ''title''" "trim ''tags'' = ''tags''"
  "trim ''done'' = ''done''" "trim ''order'' = ''order''"
  "trim ''createdAt'' = ''createdAt''" "trim ''updatedAt'' = ''updatedAt''"
  by (simp_all add: trim_def trimStart_def trimEnd_def is_space_def)

lemma space_facts: "is_space (CHR '' '')" "is_space NL"
  "\<not> is_space (CHR ''i'')" "\<not> is_space (CHR ''t'')" "\<not> is_space (CHR ''d'')"
  "\<not> is_space (CHR ''o'')" "\<not> is_space (CHR ''c'')" "\<not> is_space (CHR ''u'')"
  by (simp_all add: is_space_def)

text \<open>One line \<open>key: value\<close> of the metadata block, read back.\<close>

lemma meta_line_step:
  assumes "codec_ok P v" and "CHR '':'' \<notin> set key" and "key \<noteq> []" and "\<not> is_space (hd key)"
    and "trim key = key"
  shows "parse_meta_lines P ((key @ '': '' @ JSON_stringify P v) # ls) meta
           = parse_meta_lines P ls (meta(key \<mapsto> v))"
proof -
  let ?x = "JSON_stringify P v"
  let ?line = "key @ '': '' @ ?x"
  obtain c cs where key: "key = c # cs" using assms(3) by (cases key) auto
  have ne: "trim ?line \<noteq> []"
    using assms(4) by (simp add: key trim_Cons_nonspace)
  have idx_gen: "CHR '':'' \<notin> set k \<Longrightarrow> indexOf (k @ CHR '':'' # rest) (CHR '':'') = int (length k)"
    for k rest
    by (induction k) (auto simp: Let_def)
  have idx: "indexOf (key @ CHR '':'' # CHR '' '' # ?x) (CHR '':'') = int (length key)"
    using idx_gen[OF assms(2)] .
  have ne': "trim (key @ CHR '':'' # CHR '' '' # ?x) \<noteq> []" using ne by simp
  have tx: "trim (CHR '' '' # ?x) = ?x"
    using assms(1) by (simp add: trim_Cons_space space_facts codec_ok_def)
  have p: "JSON_parse P ?x = Some v" using assms(1) by (simp add: codec_ok_def)
  show ?thesis
    using ne' assms(3)
    by (simp add: idx assms(5) tx p Let_def nat_add_distrib)
qed

lemma normalizeTask_cong:
  assumes "\<And>k. k \<in> {''id'', ''title'', ''description'', ''tags'', ''tag'', ''done'', ''order'',
                      ''createdAt'', ''updatedAt''} \<Longrightarrow> m k = m' k"
  shows "normalizeTask P m = normalizeTask P m'"
  using assms by (simp add: normalizeTask_def get_prop_def)

lemma normalizeTask_description:
  "normalizeTask P ((task_obj (normalizeTask P task))(''description'' \<mapsto> JStr d))
     = (normalizeTask P task)\<lparr> t_description := d \<rparr>"
proof -
  let ?t = "normalizeTask P task"
  have "normalizeTask P ((task_obj ?t)(''description'' \<mapsto> JStr d))
        = (normalizeTask P (task_obj ?t))\<lparr> t_description := d \<rparr>"
    by (simp add: normalizeTask_def get_prop_def task_obj_def Let_def coalesce_def nullish_def)
  then show ?thesis by (simp add: normalizeTask_task_obj)
qed

lemma taskToMarkdown_shape:
  "taskToMarkdown P rawTask =
     ''---'' @ [NL] @
     join [NL]
       [''id'' @ '': '' @ JSON_stringify P (JStr (t_id (normalizeTask P rawTask))),
        ''title'' @ '': '' @ JSON_stringify P (JStr (t_title (normalizeTask P rawTask))),
        ''tags'' @ '': '' @ JSON_stringify P (JArr (map JStr (t_tags (normalizeTask P rawTask)))),
        ''done'' @ '': '' @ JSON_stringify P (JBool (t_done (normalizeTask P rawTask))),
        ''order'' @ '': '' @ JSON_stringify P (JNum (t_order (normalizeTask P rawTask))),
        ''createdAt'' @ '': '' @ JSON_stringify P (t_createdAt (normalizeTask P rawTask)),
        ''updatedAt'' @ '': '' @ JSON_stringify P (t_updatedAt (normalizeTask P rawTask))]
     @ NL # ''---'' @ (NL # NL # trimEnd (t_description (normalizeTask P rawTask)) @ [NL])"
  by (simp add: taskToMarkdown_def toFrontmatterValue_def Let_def)

lemma markdown_round_trip_core:
  assumes "fields_ok P (normalizeTask P rawTask)"
  shows "parseMarkdownTask P (taskToMarkdown P rawTask)
           = Inr ((normalizeTask P rawTask)\<lparr> t_description := trim (t_description (normalizeTask P rawTask)) \<rparr>)"
proof -
  let ?t = "normalizeTask P rawTask"
  let ?ls = "[''id'' @ '': '' @ JSON_stringify P (JStr (t_id ?t)),
        ''title'' @ '': '' @ JSON_stringify P (JStr (t_title ?t)),
        ''tags'' @ '': '' @ JSON_stringify P (JArr (map JStr (t_tags ?t))),
        ''done'' @ '': '' @ JSON_stringify P (JBool (t_done ?t)),
        ''order'' @ '': '' @ JSON_stringify P (JNum (t_order ?t)),
        ''createdAt'' @ '': '' @ JSON_stringify P (t_createdAt ?t),
        ''updatedAt'' @ '': '' @ JSON_stringify P (t_updatedAt ?t)]"
  let ?body = "NL # trimEnd (t_description ?t) @ [NL]"
  from assms have ok:
    "codec_ok P (JStr (t_id ?t))" "codec_ok P (JStr (t_title ?t))"
    "codec_ok P (JArr (map JStr (t_tags ?t)))" "codec_ok P (JBool (t_done ?t))"
    "codec_ok P (JNum (t_order ?t))" "codec_ok P (t_createdAt ?t)" "codec_ok P (t_updatedAt ?t)"
    by (simp_all add: fields_ok_def frontmatter_values_def)
  have lines: "\<forall>l \<in> set ?ls. l \<noteq> [] \<and> hd l \<noteq> CHR ''-'' \<and> NL \<notin> set l"
    using ok by (simp add: codec_ok_def)
  have content: "taskToMarkdown P rawTask = ''---'' @ [NL] @ (join [NL] ?ls @ NL # ''---'' @ (NL # ?body))"
    by (simp only: taskToMarkdown_shape)
  have "find_delim (join [NL] ?ls @ NL # ''---'' @ (NL # ?body)) = Some (join [NL] ?ls, NL # ?body)"
    by (rule find_delim_join[OF _ lines]) simp
  then have m: "match_frontmatter (taskToMarkdown P rawTask) = Some (join [NL] ?ls, ?body)"
    by (simp add: content match_frontmatter_def del: join.simps)
  have sp: "split_on NL (join [NL] ?ls) = ?ls"
    by (rule split_on_join) (use lines in auto)
  have meta: "parse_meta_lines P ?ls Map.empty
      = [''id'' \<mapsto> JStr (t_id ?t), ''title'' \<mapsto> JStr (t_title ?t),
         ''tags'' \<mapsto> JArr (map JStr (t_tags ?t)), ''done'' \<mapsto> JBool (t_done ?t),
         ''order'' \<mapsto> JNum (t_order ?t), ''createdAt'' \<mapsto> t_createdAt ?t,
         ''updatedAt'' \<mapsto> t_updatedAt ?t]"
  proof -
    have s: "parse_meta_lines P ((''id'' @ '': '' @ JSON_stringify P (JStr (t_id ?t))) # ls) meta
               = parse_meta_lines P ls (meta(''id'' \<mapsto> JStr (t_id ?t)))"
      "parse_meta_lines P ((''title'' @ '': '' @ JSON_stringify P (JStr (t_title ?t))) # ls) meta
               = parse_meta_lines P ls (meta(''title'' \<mapsto> JStr (t_title ?t)))"
      "parse_meta_lines P ((''tags'' @ '': '' @ JSON_stringify P (JArr (map JStr (t_tags ?t)))) # ls) meta
               = parse_meta_lines P ls (meta(''tags'' \<mapsto> JArr (map JStr (t_tags ?t))))"
      "parse_meta_lines P ((''done'' @ '': '' @ JSON_stringify P (JBool (t_done ?t))) # ls) meta
               = parse_meta_lines P ls (meta(''done'' \<mapsto> JBool (t_done ?t)))"
      "parse_meta_lines P ((''order'' @ '': '' @ JSON_stringify P (JNum (t_order ?t))) # ls) meta
               = parse_meta_lines P ls (meta(''order'' \<mapsto> JNum (t_order ?t)))"
      "parse_meta_lines P ((''createdAt'' @ '': '' @ JSON_stringify P (t_createdAt ?t)) # ls) meta
               = parse_meta_lines P ls (meta(''createdAt'' \<mapsto> t_createdAt ?t))"
      "parse_meta_lines P ((''updatedAt'' @ '': '' @ JSON_stringify P (t_updatedAt ?t)) # ls) meta
               = parse_meta_lines P ls (meta(''updatedAt'' \<mapsto> t_updatedAt ?t))"
      for ls meta
      by (rule meta_line_step; simp add: ok key_trims space_facts)+
    show ?thesis by (simp only: s parse_meta_lines.simps(1))
  qed
  have "parseMarkdownTask P (taskToMarkdown P rawTask)
      = Inr (normalizeTask P
               ([''id'' \<mapsto> JStr (t_id ?t), ''title'' \<mapsto> JStr (t_title ?t),
                 ''tags'' \<mapsto> JArr (map JStr (t_tags ?t)), ''done'' \<mapsto> JBool (t_done ?t),
                 ''order'' \<mapsto> JNum (t_order ?t), ''createdAt'' \<mapsto> t_createdAt ?t,
                 ''updatedAt'' \<mapsto> t_updatedAt ?t](''description'' \<mapsto> JStr (trim ?body))))"
    by (simp only: parseMarkdownTask_def m sp meta option.case prod.case Let_def)
  also have "\<dots> = Inr (normalizeTask P ((task_obj ?t)(''description'' \<mapsto> JStr (trim (t_description ?t)))))"
    by (simp only: trim_body, rule arg_cong[where f = Inr], rule normalizeTask_cong)
       (auto simp: task_obj_def)
  also have "\<dots> = Inr (?t\<lparr> t_description := trim (t_description ?t) \<rparr>)"
    by (simp only: normalizeTask_description)
  finally show ?thesis .
qed

text \<open>
  Claim C1, as amended. When the platform's JSON codec reads back the seven metadata
  values of a normalized task, parsing the markdown that \<open>taskToMarkdown\<close> writes gives
  the task back in every field, except that the description comes back trimmed at
  both ends.
\<close>

theorem markdown_round_trip:
  assumes "fields_ok P (normalizeTask P rawTask)"
  shows "parseMarkdownTask P (taskToMarkdown P rawTask)
           = Inr ((normalizeTask P rawTask)\<lparr> t_description := trim (t_description (normalizeTask P rawTask)) \<rparr>)"
  using assms by (rule markdown_round_trip_core)

text \<open>The round trip on the reference platform, for a task whose title and description need trimming.\<close>

theorem markdown_round_trip_witness:
  "fields_ok ref_platform
     (normalizeTask ref_platform
        [''id'' \<mapsto> JStr ''t7'', ''title'' \<mapsto> JStr '' Water plants '',
         ''description'' \<mapsto> JStr ''Twice a week.  '', ''tags'' \<mapsto> JStr ''Home,garden'',
         ''order'' \<mapsto> JNum (Fin 3)])
   \<and> parseMarkdownTask ref_platform
        (taskToMarkdown ref_platform
           [''id'' \<mapsto> JStr ''t7'', ''title'' \<mapsto> JStr '' Water plants '',
            ''description'' \<mapsto> JStr ''Twice a week.  '', ''tags'' \<mapsto> JStr ''Home,garden'',
            ''order'' \<mapsto> JNum (Fin 3)])
       = Inr \<lparr> t_id = ''t7'', t_title = ''Water plants'', t_description = ''Twice a week.'',
               t_tags = [''Home'', ''garden''], t_done = False, t_order = Fin 3,
               t_createdAt = JStr ''2024-05-01T10:00:00.000Z'',
               t_updatedAt = JStr ''2024-05-01T10:00:00.000Z'' \<rparr>"
proof -
  let ?raw = "[''id'' \<mapsto> JStr ''t7'', ''title'' \<mapsto> JStr '' Water plants '',
         ''description'' \<mapsto> JStr ''Twice a week.  '', ''tags'' \<mapsto> JStr ''Home,garden'',
         ''order'' \<mapsto> JNum (Fin 3)]"
  have ok: "fields_ok ref_platform (normalizeTask ref_platform ?raw)"
    by code_simp
  have t: "(normalizeTask ref_platform ?raw)
             \<lparr> t_description := trim (t_description (normalizeTask ref_platform ?raw)) \<rparr>
      = \<lparr> t_id = ''t7'', t_title = ''Water plants'', t_description = ''Twice a week.'',
               t_tags = [''Home'', ''garden''], t_done = False, t_order = Fin 3,
               t_createdAt = JStr ''2024-05-01T10:00:00.000Z'',
               t_updatedAt = JStr ''2024-05-01T10:00:00.000Z'' \<rparr>"
    by code_simp
  show ?thesis using ok markdown_round_trip[OF ok] by (simp only: t simp_thms)
qed

text \<open>
  The claim as stated has the description come back up to trailing whitespace only:
  a description that starts with a blank loses it.
\<close>

theorem leading_whitespace_counterexample:
  "t_description
     (normalizeTask ref_platform
        [''id'' \<mapsto> JStr ''t8'', ''title'' \<mapsto> JStr ''Note'', ''description'' \<mapsto> JStr '' indented''])
     = '' indented''
   \<and> parseMarkdownTask ref_platform
        (taskToMarkdown ref_platform
           [''id'' \<mapsto> JStr ''t8'', ''title'' \<mapsto> JStr ''Note'', ''description'' \<mapsto> JStr '' indented''])
       = Inr \<lparr> t_id = ''t8'', t_title = ''Note'', t_description = ''indented'',
               t_tags = [''General''], t_done = False, t_order = Fin 0,
               t_createdAt = JStr ''2024-05-01T10:00:00.000Z'',
               t_updatedAt = JStr ''2024-05-01T10:00:00.000Z'' \<rparr>
   \<and> trimEnd '' indented'' \<noteq> trimEnd ''indented''"
  by code_simp

section \<open>Reading a directory in order\<close>


lemma filter_markdown_canonical:
  "canonical_files P fs \<Longrightarrow> filter (\<lambda>(name, content). is_markdown name) fs = fs"
  by (rule filter_True) (auto simp: canonical_files_def)





lemma getTaskRecords_ok:
  assumes "store_ok P w"
  shows "getTaskRecords P w = (sort_records P (read_files P (files w)), w)"
proof -
  from assms have ne: "files w \<noteq> []" and can: "canonical_files P (files w)"
    by (simp_all add: store_ok_def)
  from ne obtain f where f: "f \<in> set (files w)" by (cases "files w") auto
  with can have "is_markdown (fst f)" by (simp add: canonical_files_def)
  with f have "\<exists>name \<in> fst ` set (files w). is_markdown name" by blast
  then show ?thesis
    by (simp add: getTaskRecords_def ensureSeedTasks_def readAllTaskRecords_def
        filter_markdown_canonical[OF can])
qed

section \<open>Writing a stored task back under its own name\<close>







section \<open>Removing a tag from a stored task\<close>








lemma fileName_tag_removed_record [simp]: "fileName (tag_removed_record P tag r) = fileName r"
  by (simp add: tag_removed_record_def)





section \<open>Sorting keeps the records\<close>






section \<open>Deleting a tag everywhere\<close>










section \<open>Deleting a tag in the example states\<close>








section \<open>The order of ids that reordering computes\<close>







lemma first_occurrences_Nil [simp]: "first_occurrences [] = []"
  by (simp add: first_occurrences_def)

lemma set_first_occurrences [simp]: "set (first_occurrences xs) = set xs"
  by (simp add: first_occurrences_def)

lemma distinct_first_occurrences [simp]: "distinct (first_occurrences xs)"
  by (simp add: first_occurrences_def)









section \<open>Rewriting the order of a stored task\<close>






section \<open>Sorting records with distinct orders\<close>






section \<open>Reordering the tasks\<close>






end
